theory Spec2Isabelle
  imports Main
begin

section \<open>Objects of the interpreter\<close>

text \<open>
  The interpreter of \<^verbatim>\<open>lisp.py\<close> works on host objects: the parser builds them, the
  evaluator returns them, and \<^verbatim>\<open>quote\<close> hands a piece of the parse tree over as a
  value, so expressions and values are one type.

  A host float is represented by a literal that denotes it: the parser stores the token it
  converted. Rounding and float arithmetic are not modelled; nothing below inspects the
  payload of a float.
\<close>

datatype pyfloat = FloatLit string

datatype builtin =
    Add | Sub | Mul | TrueDiv | Gt | Ge | Lt | Le | Eq | Ne
  | NullP | Print | ListB | Car | Cdr | Cons | Length | Append

datatype obj =
    PInt int
  | PFloat pyfloat
  | PStr string
  | PBool bool
  | PNone
  | PList "obj list"
  | Symbol string
  | String string
  | Lambda obj obj
  | Callable builtin

text \<open>
  \<^verbatim>\<open>fail(s)\<close> prints a message and exits the process; each of its call sites is one
  constructor, carrying what the message is formatted from. The remaining constructors are
  host exceptions.
\<close>

datatype error =
    EmptyExpression
  | UnexpectedToken string
  | MissingParen
  | UnknownSymbol string
  | LambdaShape
  | IfShape
  | DefineShape
  | QuoteShape
  | ArityMismatch nat nat
  | NotAFunction obj
  | AttributeError
  | TypeError
  | HostError string

section \<open>Tokenizer\<close>

definition quote_char :: char where
  "quote_char = CHR 0x27"

definition is_blank :: "char \<Rightarrow> bool" where
  "is_blank c = (c = CHR 0x09 \<or> c = CHR 0x0A \<or> c = CHR '' '')"

definition is_paren :: "char \<Rightarrow> bool" where
  "is_paren c = (c = CHR ''('' \<or> c = CHR '')'')"

definition is_delim :: "char \<Rightarrow> bool" where
  "is_delim c = (is_paren c \<or> is_blank c)"

text \<open>
  The loop of \<^verbatim>\<open>tokenize\<close>, on the characters not yet read. \<open>ins\<close> is
  \<^verbatim>\<open>in_string\<close>, \<open>cw\<close> is \<^verbatim>\<open>current_word\<close>, \<open>ret\<close> the tokens emitted so far.
  The lookahead \<^verbatim>\<open>i < len(s) - 1 and s[i+1] in [...]\<close> reads the head of the rest.
\<close>

fun tok_loop :: "string \<Rightarrow> bool \<Rightarrow> string \<Rightarrow> string list \<Rightarrow> string list" where
  "tok_loop [] ins cw ret = (if cw \<noteq> [] then ret @ [cw] else ret)"
| "tok_loop (c # cs) ins cw ret =
     (if c = quote_char then
        (if \<not> ins then tok_loop cs True (cw @ [c]) ret
         else tok_loop cs False [] (ret @ [cw @ [c]]))
      else if ins then tok_loop cs ins (cw @ [c]) ret
      else if is_blank c then
        (if cw \<noteq> [] \<and> \<not> ins then tok_loop cs ins [] (ret @ [cw])
         else tok_loop cs ins cw ret)
      else if is_paren c then
        (if cw \<noteq> [] \<and> \<not> ins then tok_loop cs ins [] (ret @ [cw] @ [[c]])
         else tok_loop cs ins cw (ret @ [[c]]))
      else
        (if cs \<noteq> [] \<and> is_delim (hd cs) \<and> \<not> ins
         then tok_loop cs ins [] (ret @ [cw @ [c]])
         else tok_loop cs ins (cw @ [c]) ret))"

definition tokenize :: "string \<Rightarrow> string list" where
  "tokenize s = tok_loop s False [] []"

section \<open>Numeric and string tokens\<close>

text \<open>
  \<^verbatim>\<open>is_integer\<close> and \<^verbatim>\<open>is_float\<close> ask the host's \<^verbatim>\<open>int\<close> and \<^verbatim>\<open>float\<close>
  whether they accept the token. Both are modelled on ASCII text, from the grammar of the
  host language: surrounding whitespace is dropped, a sign may follow, digits may be
  grouped by single underscores. Blanks and digits outside ASCII, and the limit a host
  may put on the length of a digit string, are not modelled.
\<close>

definition is_space :: "char \<Rightarrow> bool" where
  "is_space c = (c \<in> set [CHR 0x09, CHR 0x0A, CHR 0x0B, CHR 0x0C, CHR 0x0D, CHR '' ''])"

definition strip :: "string \<Rightarrow> string" where
  "strip s = rev (dropWhile is_space (rev (dropWhile is_space s)))"

definition is_digit :: "char \<Rightarrow> bool" where
  "is_digit c = (c \<in> set ''0123456789'')"

definition digit_val :: "char \<Rightarrow> int" where
  "digit_val c = (case map_of (zip ''0123456789'' [0, 1, 2, 3, 4, 5, 6, 7, 8, 9]) c of
       Some d \<Rightarrow> d | None \<Rightarrow> 0)"

definition is_sign :: "char \<Rightarrow> bool" where
  "is_sign c = (c = CHR ''+'' \<or> c = CHR ''-'')"

fun digitpart :: "string \<Rightarrow> bool" where
  "digitpart [] = False"
| "digitpart [c] = is_digit c"
| "digitpart (c # d # cs) =
     (is_digit c \<and> (if d = CHR ''_'' then digitpart cs else digitpart (d # cs)))"

definition digits_value :: "string \<Rightarrow> int" where
  "digits_value s = foldl (\<lambda>a c. 10 * a + digit_val c) 0 (filter is_digit s)"

definition py_int :: "string \<Rightarrow> int option" where
  "py_int s =
     (let t = strip s;
          neg = (t \<noteq> [] \<and> hd t = CHR ''-'');
          body = (if t \<noteq> [] \<and> is_sign (hd t) then tl t else t)
      in if digitpart body
         then Some (if neg then - digits_value body else digits_value body)
         else None)"

definition is_integer :: "string \<Rightarrow> bool" where
  "is_integer s = (py_int s \<noteq> None)"

text \<open>
  \<^verbatim>\<open>float\<close>: an underscore must stand between two digits; with the underscores
  removed, the text is an optional sign followed by \<^verbatim>\<open>inf\<close>, \<^verbatim>\<open>infinity\<close> or
  \<^verbatim>\<open>nan\<close> in any case, or by a decimal number with an optional exponent.
\<close>

fun underscores_ok :: "char \<Rightarrow> string \<Rightarrow> bool" where
  "underscores_ok prev [] = (prev \<noteq> CHR ''_'')"
| "underscores_ok prev (c # cs) =
     (if c = CHR ''_'' then is_digit prev \<and> underscores_ok c cs
      else (if prev = CHR ''_'' then is_digit c else True) \<and> underscores_ok c cs)"

definition lower :: "char \<Rightarrow> char" where
  "lower c = (case map_of (zip ''ABCDEFGHIJKLMNOPQRSTUVWXYZ'' ''abcdefghijklmnopqrstuvwxyz'') c of
       Some l \<Rightarrow> l | None \<Rightarrow> c)"

definition is_exp_mark :: "char \<Rightarrow> bool" where
  "is_exp_mark c = (c = CHR ''e'' \<or> c = CHR ''E'')"

definition mantissa_ok :: "string \<Rightarrow> bool" where
  "mantissa_ok m =
     (let ip = takeWhile is_digit m; r = dropWhile is_digit m
      in if r = [] then ip \<noteq> []
         else hd r = CHR ''.'' \<and> list_all is_digit (tl r) \<and> (ip \<noteq> [] \<or> tl r \<noteq> []))"

definition exponent_ok :: "string \<Rightarrow> bool" where
  "exponent_ok x =
     (let ds = (if x \<noteq> [] \<and> is_sign (hd x) then tl x else x)
      in ds \<noteq> [] \<and> list_all is_digit ds)"

definition float_number :: "string \<Rightarrow> bool" where
  "float_number u =
     (let m = takeWhile (\<lambda>c. \<not> is_exp_mark c) u; e = dropWhile (\<lambda>c. \<not> is_exp_mark c) u
      in mantissa_ok m \<and> (if e = [] then True else exponent_ok (tl e)))"

definition py_float :: "string \<Rightarrow> pyfloat option" where
  "py_float s =
     (let t = strip s;
          u = filter (\<lambda>c. c \<noteq> CHR ''_'') t;
          body = (if u \<noteq> [] \<and> is_sign (hd u) then tl u else u)
      in if underscores_ok (CHR 0x00) t \<and>
            (map lower body \<in> set [''inf'', ''infinity'', ''nan''] \<or> float_number body)
         then Some (FloatLit s) else None)"

definition is_float :: "string \<Rightarrow> bool" where
  "is_float s = (py_float s \<noteq> None)"

definition is_string :: "string \<Rightarrow> bool" where
  "is_string s = (length s \<ge> 2 \<and> hd s = quote_char \<and> last s = quote_char)"

section \<open>Parser\<close>

text \<open>
  One token that is not a parenthesis: the \<^verbatim>\<open>elif\<close> chain of \<^verbatim>\<open>do_parse\<close>, in its
  order.
\<close>

definition atom :: "string \<Rightarrow> obj" where
  "atom token =
     (case py_int token of
        Some i \<Rightarrow> PInt i
      | None \<Rightarrow>
          (case py_float token of
             Some f \<Rightarrow> PFloat f
           | None \<Rightarrow>
               if is_string token then String (butlast (tl token)) else Symbol token))"

text \<open>
  \<^verbatim>\<open>do_parse\<close> reads from an iterator that the nested call shares: the model returns
  the tokens left over together with the list built. \<open>ret\<close> is the list under
  construction.
\<close>

function do_parse :: "string list \<Rightarrow> obj list \<Rightarrow> error + (obj list \<times> string list)" where
  "do_parse [] ret = Inl MissingParen"
| "do_parse (token # tokens) ret =
     (if token = ''('' then
        (case do_parse tokens [] of
           Inl e \<Rightarrow> Inl e
         | Inr (sub, rest) \<Rightarrow> do_parse rest (ret @ [PList sub]))
      else if token = '')'' then Inr (ret, tokens)
      else do_parse tokens (ret @ [atom token]))"
  by pat_completeness auto

lemma do_parse_shorter:
  "do_parse_dom (ts, ret) \<Longrightarrow> do_parse ts ret = Inr (r, rest) \<Longrightarrow> length rest < length ts"
proof (induction ts ret arbitrary: r rest rule: do_parse.pinduct)
  case (1 ret)
  then show ?case by (simp add: do_parse.psimps)
next
  case (2 token tokens ret)
  from "2.prems" "2.hyps" have unf:
    "(if token = ''('' then
        (case do_parse tokens [] of
           Inl e \<Rightarrow> Inl e
         | Inr (sub, rest) \<Rightarrow> do_parse rest (ret @ [PList sub]))
      else if token = '')'' then Inr (ret, tokens)
      else do_parse tokens (ret @ [atom token])) = Inr (r, rest)"
    by (simp add: do_parse.psimps)
  show ?case
  proof (cases "token = ''(''")
    case True
    with unf obtain sub rest1 where
      sub: "do_parse tokens [] = Inr (sub, rest1)" and
      rst: "do_parse rest1 (ret @ [PList sub]) = Inr (r, rest)"
      by (auto split: sum.splits)
    from "2.IH"(1) [OF True sub] have "length rest1 < length tokens" .
    moreover from "2.IH"(2) [OF True sub refl rst] have "length rest < length rest1" .
    ultimately show ?thesis by simp
  next
    case False
    show ?thesis
    proof (cases "token = '')''")
      case True
      with False unf show ?thesis by simp
    next
      case close: False
      with False unf have "do_parse tokens (ret @ [atom token]) = Inr (r, rest)"
        by simp
      from "2.IH"(3) [OF False close this] show ?thesis by simp
    qed
  qed
qed

termination do_parse
proof (relation "measure (\<lambda>(ts, ret). length ts)")
  show "wf (measure (\<lambda>(ts, ret). length ts))" by simp
next
  fix token tokens ret
  show "((tokens, []), token # tokens, ret) \<in> measure (\<lambda>(ts, ret). length ts)" by simp
next
  fix token tokens ret x2 x y
  assume "token = ''(''" "do_parse tokens [] = Inr x2" "(x, y) = x2" "do_parse_dom (tokens, [])"
  then have "length y < length tokens"
    using do_parse_shorter [of tokens "[]" x y] by simp
  then show "((y, ret @ [PList x]), token # tokens, ret) \<in> measure (\<lambda>(ts, ret). length ts)"
    by simp
next
  fix token tokens ret
  show "((tokens, ret @ [atom token]), token # tokens, ret) \<in> measure (\<lambda>(ts, ret). length ts)"
    by simp
qed

definition parse :: "string list \<Rightarrow> error + obj" where
  "parse tokens =
     (case tokens of
        [] \<Rightarrow> Inl EmptyExpression
      | token # rest \<Rightarrow>
          if token \<noteq> ''('' then Inl (UnexpectedToken token)
          else (case do_parse rest [] of
                  Inl e \<Rightarrow> Inl e
                | Inr (tree, _) \<Rightarrow> Inr (PList tree)))"

section \<open>Built-in functions\<close>

text \<open>
  The table \<^verbatim>\<open>base_environment\<close> binds names to host callables. What a callable
  returns is host behaviour: the model takes it as a parameter \<open>h\<close>, a function from the
  primitive and its argument values to a result or an exception, and fixes only the cases
  that involve neither floats nor object identity. \<^verbatim>\<open>print\<close> returns the null value;
  the text it writes is not modelled.
\<close>

type_synonym host = "builtin \<Rightarrow> obj list \<Rightarrow> error + obj"

definition call_builtin :: "host \<Rightarrow> builtin \<Rightarrow> obj list \<Rightarrow> error + obj" where
  "call_builtin h b args =
     (case (b, args) of
        (Add, [PInt x, PInt y]) \<Rightarrow> Inr (PInt (x + y))
      | (Sub, [PInt x, PInt y]) \<Rightarrow> Inr (PInt (x - y))
      | (Mul, [PInt x, PInt y]) \<Rightarrow> Inr (PInt (x * y))
      | (Gt, [PInt x, PInt y]) \<Rightarrow> Inr (PBool (x > y))
      | (Ge, [PInt x, PInt y]) \<Rightarrow> Inr (PBool (x \<ge> y))
      | (Lt, [PInt x, PInt y]) \<Rightarrow> Inr (PBool (x < y))
      | (Le, [PInt x, PInt y]) \<Rightarrow> Inr (PBool (x \<le> y))
      | (Eq, [PInt x, PInt y]) \<Rightarrow> Inr (PBool (x = y))
      | (Ne, [PInt x, PInt y]) \<Rightarrow> Inr (PBool (x \<noteq> y))
      | (NullP, [x]) \<Rightarrow> Inr (PBool (x = PNone))
      | (NullP, _) \<Rightarrow> Inl TypeError
      | (Print, [x]) \<Rightarrow> Inr PNone
      | (Print, _) \<Rightarrow> Inl TypeError
      | (ListB, _) \<Rightarrow> Inr (PList args)
      | (Car, [PList lst]) \<Rightarrow> Inr (case lst of [] \<Rightarrow> PNone | x # _ \<Rightarrow> x)
      | (Cdr, [PList lst]) \<Rightarrow> Inr (PList (if length lst > 1 then tl lst else []))
      | (Cons, [x, PList lst]) \<Rightarrow> Inr (PList ([x] @ lst))
      | (Cons, [x, lst]) \<Rightarrow> Inr (PList ([x] @ [lst]))
      | (Cons, _) \<Rightarrow> Inl TypeError
      | (Length, [PList lst]) \<Rightarrow> Inr (PInt (int (length lst)))
      | _ \<Rightarrow> h b args)"

definition base_environment :: "string \<rightharpoonup> obj" where
  "base_environment = map_of
     [(''+'', Callable Add), (''-'', Callable Sub), (''*'', Callable Mul),
      (''/'', Callable TrueDiv), (''>'', Callable Gt), (''>='', Callable Ge),
      (''<'', Callable Lt), (''<='', Callable Le), (''='', Callable Eq),
      (''!='', Callable Ne), (''nil'', PNone), (''null?'', Callable NullP),
      (''print'', Callable Print), (''list'', Callable ListB), (''car'', Callable Car),
      (''cdr'', Callable Cdr), (''cons'', Callable Cons), (''length'', Callable Length),
      (''append'', Callable Append)]"

section \<open>Evaluator\<close>

text \<open>
  The environment is a host dictionary. Every lookup of the evaluator uses the text of a
  Symbol as key, so the model keeps the bindings whose key is text.
\<close>

type_synonym env = "string \<rightharpoonup> obj"

text \<open>
  \<^verbatim>\<open>len(fn.arguments)\<close> and \<^verbatim>\<open>fn.arguments[i]\<close>: defined on a list and on text,
  a TypeError on every other object.
\<close>

definition param_list :: "obj \<Rightarrow> obj list option" where
  "param_list arguments =
     (case arguments of
        PList ps \<Rightarrow> Some ps
      | PStr s \<Rightarrow> Some (map (\<lambda>c. PStr [c]) s)
      | _ \<Rightarrow> None)"

text \<open>
  The loop that binds arguments to parameters, run on the pairs
  \<^verbatim>\<open>(fn.arguments[i], args[i])\<close>. A Symbol binds its text. A parameter that is not a
  Symbol is used as the key itself: a list cannot be a key (TypeError), text binds that
  text, and any other object makes a key that no lookup uses.
\<close>

fun bind_params :: "(obj \<times> obj) list \<Rightarrow> env \<Rightarrow> error + env" where
  "bind_params [] new_env = Inr new_env"
| "bind_params ((p, a) # rest) new_env =
     (case p of
        Symbol s \<Rightarrow> bind_params rest (new_env(s \<mapsto> a))
      | PStr s \<Rightarrow> bind_params rest (new_env(s \<mapsto> a))
      | PList _ \<Rightarrow> Inl TypeError
      | _ \<Rightarrow> bind_params rest new_env)"

text \<open>\<^verbatim>\<open>expr[1].value\<close> in \<^verbatim>\<open>define\<close>: Symbol and String objects have the attribute.\<close>

definition value_attr :: "obj \<Rightarrow> error + string" where
  "value_attr x = (case x of Symbol s \<Rightarrow> Inr s | String s \<Rightarrow> Inr s | _ \<Rightarrow> Inl AttributeError)"

text \<open>
  \<^verbatim>\<open>eval_expr\<close> and \<^verbatim>\<open>apply_fn\<close> call each other without bound, so the model
  carries the depth of nested \<^verbatim>\<open>eval_expr\<close> calls still allowed; \<open>None\<close> says that the
  depth ran out (the host stops a recursion that deep as well). A result that is not
  \<open>None\<close> stays the same at every greater depth (\<open>eval_expr_deeper\<close>). A result is the
  value or the error together with the environment as the evaluation left it:
  \<^verbatim>\<open>define\<close> updates the dictionary it was given.

  \<open>eval_call\<close> is the function call that \<^verbatim>\<open>eval_expr\<close> writes out twice, for a head
  that is a Symbol and for one that is not; \<open>eval_args\<close> is its list comprehension and
  \<open>eval_begin\<close> the loop of \<^verbatim>\<open>begin\<close>.
\<close>

function (sequential) eval_expr :: "host \<Rightarrow> nat \<Rightarrow> obj \<Rightarrow> env \<Rightarrow> ((error + obj) \<times> env) option"
and eval_call :: "host \<Rightarrow> nat \<Rightarrow> obj \<Rightarrow> obj list \<Rightarrow> env \<Rightarrow> ((error + obj) \<times> env) option"
and eval_args :: "host \<Rightarrow> nat \<Rightarrow> obj list \<Rightarrow> env \<Rightarrow> ((error + obj list) \<times> env) option"
and eval_begin :: "host \<Rightarrow> nat \<Rightarrow> obj list \<Rightarrow> obj \<Rightarrow> env \<Rightarrow> ((error + obj) \<times> env) option"
and apply_fn :: "host \<Rightarrow> nat \<Rightarrow> obj \<Rightarrow> obj list \<Rightarrow> env \<Rightarrow> (error + obj) option"
where
  "eval_expr h 0 expr environment = None"
| "eval_expr h (Suc n) expr environment =
     (case expr of
        PInt _ \<Rightarrow> Some (Inr expr, environment)
      | PBool _ \<Rightarrow> Some (Inr expr, environment)
      | PFloat _ \<Rightarrow> Some (Inr expr, environment)
      | PStr _ \<Rightarrow> Some (Inr expr, environment)
      | String v \<Rightarrow> Some (Inr (PStr v), environment)
      | Symbol v \<Rightarrow>
          (case environment v of
             None \<Rightarrow> Some (Inl (UnknownSymbol v), environment)
           | Some x \<Rightarrow> Some (Inr x, environment))
      | PList [] \<Rightarrow> Some (Inr (PList []), environment)
      | PList (e0 # rest) \<Rightarrow>
          (case e0 of
             Symbol v \<Rightarrow>
               if v = ''lambda'' then
                 (case rest of
                    arg_names # code # _ \<Rightarrow> Some (Inr (Lambda arg_names code), environment)
                  | _ \<Rightarrow> Some (Inl LambdaShape, environment))
               else if v = ''if'' then
                 (case rest of
                    condition # then_clause # more \<Rightarrow>
                      (let else_clause = (case more of [e3] \<Rightarrow> e3 | _ \<Rightarrow> PNone) in
                       case eval_expr h n condition environment of
                         None \<Rightarrow> None
                       | Some (Inl err, env1) \<Rightarrow> Some (Inl err, env1)
                       | Some (Inr c, env1) \<Rightarrow>
                           if c \<noteq> PBool False then eval_expr h n then_clause env1
                           else if else_clause \<noteq> PNone then eval_expr h n else_clause env1
                           else Some (Inr PNone, env1))
                  | _ \<Rightarrow> Some (Inl IfShape, environment))
               else if v = ''define'' then
                 (case rest of
                    [e1, e2] \<Rightarrow>
                      (case value_attr e1 of
                         Inl err \<Rightarrow> Some (Inl err, environment)
                       | Inr name \<Rightarrow>
                           (case eval_expr h n e2 environment of
                              None \<Rightarrow> None
                            | Some (Inl err, env1) \<Rightarrow> Some (Inl err, env1)
                            | Some (Inr val, env1) \<Rightarrow> Some (Inr val, env1(name \<mapsto> val))))
                  | _ \<Rightarrow> Some (Inl DefineShape, environment))
               else if v = ''begin'' then eval_begin h n rest PNone environment
               else if v = ''quote'' then
                 (case rest of
                    [e1] \<Rightarrow> Some (Inr e1, environment)
                  | _ \<Rightarrow> Some (Inl QuoteShape, environment))
               else eval_call h n e0 rest environment
           | _ \<Rightarrow> eval_call h n e0 rest environment)
      | _ \<Rightarrow> Some (Inr expr, environment))"
| "eval_call h n e0 rest environment =
     (case eval_expr h n e0 environment of
        None \<Rightarrow> None
      | Some (Inl err, env1) \<Rightarrow> Some (Inl err, env1)
      | Some (Inr fn, env1) \<Rightarrow>
          (case eval_args h n rest env1 of
             None \<Rightarrow> None
           | Some (Inl err, env2) \<Rightarrow> Some (Inl err, env2)
           | Some (Inr args, env2) \<Rightarrow>
               (case apply_fn h n fn args env2 of
                  None \<Rightarrow> None
                | Some r \<Rightarrow> Some (r, env2))))"
| "eval_args h n [] environment = Some (Inr [], environment)"
| "eval_args h n (arg # rest) environment =
     (case eval_expr h n arg environment of
        None \<Rightarrow> None
      | Some (Inl err, env1) \<Rightarrow> Some (Inl err, env1)
      | Some (Inr x, env1) \<Rightarrow>
          (case eval_args h n rest env1 of
             None \<Rightarrow> None
           | Some (Inl err, env2) \<Rightarrow> Some (Inl err, env2)
           | Some (Inr xs, env2) \<Rightarrow> Some (Inr (x # xs), env2)))"
| "eval_begin h n [] result environment = Some (Inr result, environment)"
| "eval_begin h n (ex # rest) result environment =
     (case eval_expr h n ex environment of
        None \<Rightarrow> None
      | Some (Inl err, env1) \<Rightarrow> Some (Inl err, env1)
      | Some (Inr x, env1) \<Rightarrow> eval_begin h n rest x env1)"
| "apply_fn h n fn args environment =
     (case fn of
        Callable b \<Rightarrow> Some (call_builtin h b args)
      | Lambda arguments code \<Rightarrow>
          (case param_list arguments of
             None \<Rightarrow> Some (Inl TypeError)
           | Some ps \<Rightarrow>
               if length args \<noteq> length ps
               then Some (Inl (ArityMismatch (length ps) (length args)))
               else
                 (case bind_params (zip ps args) environment of
                    Inl err \<Rightarrow> Some (Inl err)
                  | Inr new_env \<Rightarrow>
                      (case eval_expr h n code new_env of
                         None \<Rightarrow> None
                       | Some (r, _) \<Rightarrow> Some r)))
      | _ \<Rightarrow> Some (Inl (NotAFunction fn)))"
  by pat_completeness auto

termination
  by (relation "inv_image (less_than <*lex*> less_than)
        (\<lambda>x. case x of
           Inl (Inl (h, n, expr, environment)) \<Rightarrow> (n, 0)
         | Inl (Inr (h, n, e0, rest, environment)) \<Rightarrow> (n, length rest + 2)
         | Inr (Inl (h, n, rest, environment)) \<Rightarrow> (n, length rest + 1)
         | Inr (Inr (Inl (h, n, rest, result, environment))) \<Rightarrow> (n, length rest + 1)
         | Inr (Inr (Inr (h, n, fn, args, environment))) \<Rightarrow> (n, 1))")
     (simp_all add: wf_lex_prod)

section \<open>Running a program\<close>

text \<open>
  What \<^verbatim>\<open>run_file\<close> does with the contents of the file it has read: tokenize, parse
  when there is a token, evaluate against \<^verbatim>\<open>base_environment\<close>.
\<close>

definition run_file :: "host \<Rightarrow> nat \<Rightarrow> string \<Rightarrow> ((error + obj) \<times> env) option" where
  "run_file h n contents =
     (let tokens = tokenize contents in
      if tokens \<noteq> [] then
        (case parse tokens of
           Inl err \<Rightarrow> Some (Inl err, base_environment)
         | Inr parsed \<Rightarrow> eval_expr h n parsed base_environment)
      else Some (Inr PNone, base_environment))"

text \<open>
  A host for closed examples: every call that reaches it raises. The examples call
  primitives only on arguments for which \<open>call_builtin\<close> does not consult the host.
\<close>

definition raising_host :: host where
  "raising_host b args = Inl TypeError"

section \<open>Notions used by the properties\<close>

definition special_forms :: "string list" where
  "special_forms = [''lambda'', ''if'', ''define'', ''begin'', ''quote'']"

definition is_special :: "obj \<Rightarrow> bool" where
  "is_special e0 = (case e0 of Symbol v \<Rightarrow> v \<in> set special_forms | _ \<Rightarrow> False)"


section \<open>Closure application\<close>

lemma eval_expr_call:
  "\<not> is_special e0 \<Longrightarrow>
   eval_expr h (Suc n) (PList (e0 # rest)) env = eval_call h n e0 rest env"
  by (cases e0) (simp_all add: is_special_def special_forms_def)

lemma bind_params_names:
  "length args = length names \<Longrightarrow>
   bind_params (zip (map Symbol names) args) env = Inr (env ++ map_of (rev (zip names args)))"
proof (induction names arbitrary: args env)
  case Nil
  then show ?case by simp
next
  case (Cons x xs)
  then obtain a as where args: "args = a # as" by (cases args) auto
  with Cons.prems have len: "length as = length xs" by simp
  have "env(x \<mapsto> a) ++ map_of (rev (zip xs as)) =
        env ++ map_of (rev (zip xs as) @ [(x, a)])"
    by (simp add: fun_eq_iff map_add_def split: option.splits)
  then show ?case
    by (simp add: args Cons.IH [OF len] fun_upd_def)
qed

text \<open>
  C1. Take a call whose head evaluates to a closure and whose arguments evaluate to
  values, leaving the caller's environment \<open>env2\<close>. Whatever the call returns, the
  environment after it is \<open>env2\<close>. When the closure has the parameter names \<open>names\<close> and
  there are as many arguments, the body is evaluated in \<open>env2\<close> overridden by the
  parameters bound to the arguments in order, and what the body does to that copy
  (\<open>body_env\<close>) is dropped. The closure holds no environment of its own, so a
  \<^verbatim>\<open>define\<close> in the body does not reach the caller, a variable of the caller is
  visible in the body, and a variable of the scope that built the closure is not.
\<close>

theorem closure_call_copies_caller_env:
  assumes "eval_expr h n e0 env = Some (Inr (Lambda params code), env1)"
    and "eval_args h n rest env1 = Some (Inr args, env2)"
    and "\<not> is_special e0"
  shows "(\<forall>r env'. eval_expr h (Suc n) (PList (e0 # rest)) env = Some (r, env') \<longrightarrow> env' = env2) \<and>
         (params = PList (map Symbol names) \<and> length args = length names \<longrightarrow>
            eval_expr h (Suc n) (PList (e0 # rest)) env =
              (case eval_expr h n code (env2 ++ map_of (rev (zip names args))) of
                 None \<Rightarrow> None
               | Some (r, body_env) \<Rightarrow> Some (r, env2)))"
proof -
  have "eval_expr h (Suc n) (PList (e0 # rest)) env = eval_call h n e0 rest env"
    using assms(3) by (rule eval_expr_call)
  also have "\<dots> = (case apply_fn h n (Lambda params code) args env2 of
                       None \<Rightarrow> None | Some r \<Rightarrow> Some (r, env2))"
    using assms(1,2) by simp
  finally have call: "eval_expr h (Suc n) (PList (e0 # rest)) env =
      (case apply_fn h n (Lambda params code) args env2 of None \<Rightarrow> None | Some r \<Rightarrow> Some (r, env2))" .
  have frame: "env' = env2" if "eval_expr h (Suc n) (PList (e0 # rest)) env = Some (r, env')" for r env'
    using that unfolding call by (simp split: option.splits)
  have body: "eval_expr h (Suc n) (PList (e0 # rest)) env =
              (case eval_expr h n code (env2 ++ map_of (rev (zip names args))) of
                 None \<Rightarrow> None
               | Some (r, body_env) \<Rightarrow> Some (r, env2))"
    if "params = PList (map Symbol names)" "length args = length names"
    unfolding call using that
    by (simp add: param_list_def bind_params_names split: option.splits)
  from frame body show ?thesis by blast
qed

theorem closure_call_copies_caller_env_witness:
  "eval_expr raising_host (Suc (Suc 0)) (Symbol ''f'')
      (base_environment(''f'' \<mapsto>
        Lambda (PList (map Symbol [''x''])) (PList [Symbol ''define'', Symbol ''y'', Symbol ''x''])))
     = Some (Inr (Lambda (PList (map Symbol [''x''])) (PList [Symbol ''define'', Symbol ''y'', Symbol ''x''])),
      (base_environment(''f'' \<mapsto>
        Lambda (PList (map Symbol [''x''])) (PList [Symbol ''define'', Symbol ''y'', Symbol ''x''])))) \<and>
   eval_args raising_host (Suc (Suc 0)) [PInt 5]
      (base_environment(''f'' \<mapsto>
        Lambda (PList (map Symbol [''x''])) (PList [Symbol ''define'', Symbol ''y'', Symbol ''x''])))
     = Some (Inr [PInt 5],
      (base_environment(''f'' \<mapsto>
        Lambda (PList (map Symbol [''x''])) (PList [Symbol ''define'', Symbol ''y'', Symbol ''x''])))) \<and>
   \<not> is_special (Symbol ''f'') \<and>
   length [PInt 5] = length [''x''] \<and>
   eval_expr raising_host (Suc (Suc (Suc 0))) (PList [Symbol ''f'', PInt 5])
      (base_environment(''f'' \<mapsto>
        Lambda (PList (map Symbol [''x''])) (PList [Symbol ''define'', Symbol ''y'', Symbol ''x''])))
     = Some (Inr (PInt 5),
      (base_environment(''f'' \<mapsto>
        Lambda (PList (map Symbol [''x''])) (PList [Symbol ''define'', Symbol ''y'', Symbol ''x''])))) \<and>
   (base_environment(''f'' \<mapsto>
        Lambda (PList (map Symbol [''x''])) (PList [Symbol ''define'', Symbol ''y'', Symbol ''x'']))) ''y'' = None"
proof -
  let ?f = "Lambda (PList (map Symbol [''x''])) (PList [Symbol ''define'', Symbol ''y'', Symbol ''x''])"
  let ?env = "base_environment(''f'' \<mapsto> ?f)"
  have head: "eval_expr raising_host (Suc (Suc 0)) (Symbol ''f'') ?env = Some (Inr ?f, ?env)"
    by simp
  have args: "eval_args raising_host (Suc (Suc 0)) [PInt 5] ?env = Some (Inr [PInt 5], ?env)"
    by simp
  have ns: "\<not> is_special (Symbol ''f'')"
    by (simp add: is_special_def special_forms_def)
  have len: "length [PInt 5] = length [''x'']" by simp
  have body: "eval_expr raising_host (Suc (Suc 0)) (PList [Symbol ''define'', Symbol ''y'', Symbol ''x''])
                (?env ++ map_of (rev (zip [''x''] [PInt 5])))
              = Some (Inr (PInt 5), (?env ++ map_of (rev (zip [''x''] [PInt 5])))(''y'' \<mapsto> PInt 5))"
    by (simp add: value_attr_def)
  have unbound: "?env ''y'' = None"
    by (simp add: base_environment_def)
  from closure_call_copies_caller_env [OF head args ns, where names = "[''x'']"]
       head args len body ns unbound
  show ?thesis by simp
qed

text \<open>
  Two programs, run as \<^verbatim>\<open>run_file\<close> runs them. In the first the body of \<open>g\<close> reads
  \<open>y\<close>, which only its caller binds. In the second the closure is built where \<open>z\<close> is
  bound and called where it is not.
\<close>

lemma closure_sees_caller_binding:
  "map_option fst (run_file h (Suc (Suc (Suc (Suc (Suc (Suc n))))))
     ''(begin (define g (lambda () y)) ((lambda (y) (g)) 5))'') = Some (Inr (PInt 5))"
proof -
  have "parse (tokenize ''(begin (define g (lambda () y)) ((lambda (y) (g)) 5))'') =
     Inr (PList [Symbol ''begin'',
            PList [Symbol ''define'', Symbol ''g'', PList [Symbol ''lambda'', PList [], Symbol ''y'']],
            PList [PList [Symbol ''lambda'', PList [Symbol ''y''], PList [Symbol ''g'']], PInt 5]])"
    by code_simp
  moreover have "tokenize ''(begin (define g (lambda () y)) ((lambda (y) (g)) 5))'' \<noteq> []"
    by code_simp
  ultimately show ?thesis
    by (simp add: run_file_def Let_def value_attr_def param_list_def base_environment_def)
qed

lemma closure_misses_defining_scope:
  "map_option fst (run_file h (Suc (Suc (Suc (Suc (Suc (Suc n))))))
     ''(begin (define f ((lambda (z) (lambda () z)) 1)) (f))'') = Some (Inl (UnknownSymbol ''z''))"
proof -
  have "parse (tokenize ''(begin (define f ((lambda (z) (lambda () z)) 1)) (f))'') =
     Inr (PList [Symbol ''begin'',
            PList [Symbol ''define'', Symbol ''f'',
              PList [PList [Symbol ''lambda'', PList [Symbol ''z''],
                            PList [Symbol ''lambda'', PList [], Symbol ''z'']], PInt 1]],
            PList [Symbol ''f'']])"
    by code_simp
  moreover have "tokenize ''(begin (define f ((lambda (z) (lambda () z)) 1)) (f))'' \<noteq> []"
    by code_simp
  ultimately show ?thesis
    by (simp add: run_file_def Let_def value_attr_def param_list_def base_environment_def)
qed

section \<open>Conditionals\<close>

lemma eval_expr_fuel: "eval_expr h n e env = Some r \<Longrightarrow> \<exists>m. n = Suc m"
  by (cases n) simp_all

text \<open>
  C2. Let the condition of an \<^verbatim>\<open>if\<close> evaluate to \<open>v\<close>, leaving the environment
  \<open>env1\<close>. When \<open>v\<close> is anything but the Boolean false (the integer 0, the empty list and
  the null value included) the form is the evaluation of the then clause from \<open>env1\<close>,
  whatever follows the then clause. When \<open>v\<close> is the Boolean false, the form with an else
  clause is the evaluation of the else clause from \<open>env1\<close>, and the form without one is the
  null value. In each case the other clause is not evaluated: the result and the
  environment are those of the selected clause alone.
\<close>

theorem if_truthiness:
  assumes "eval_expr h n c env = Some (Inr v, env1)"
  shows "(v \<noteq> PBool False \<longrightarrow>
            eval_expr h (Suc n) (PList (Symbol ''if'' # c # t # els)) env = eval_expr h n t env1) \<and>
         (v = PInt 0 \<or> v = PList [] \<or> v = PNone \<longrightarrow>
            eval_expr h (Suc n) (PList (Symbol ''if'' # c # t # els)) env = eval_expr h n t env1) \<and>
         (v = PBool False \<longrightarrow>
            eval_expr h (Suc n) (PList [Symbol ''if'', c, t, e]) env = eval_expr h n e env1) \<and>
         (v = PBool False \<longrightarrow>
            eval_expr h (Suc n) (PList [Symbol ''if'', c, t]) env = Some (Inr PNone, env1))"
proof -
  from assms obtain m where n: "n = Suc m" by (auto dest: eval_expr_fuel)
  have null: "eval_expr h n PNone env1 = Some (Inr PNone, env1)" by (simp add: n)
  have truthy: "eval_expr h (Suc n) (PList (Symbol ''if'' # c # t # els)) env = eval_expr h n t env1"
    if "v \<noteq> PBool False"
    using assms that by simp
  have with_else: "eval_expr h (Suc n) (PList [Symbol ''if'', c, t, e]) env = eval_expr h n e env1"
    if "v = PBool False"
    using assms that null by (cases "e = PNone") simp_all
  have no_else: "eval_expr h (Suc n) (PList [Symbol ''if'', c, t]) env = Some (Inr PNone, env1)"
    if "v = PBool False"
    using assms that by simp
  from truthy with_else no_else show ?thesis by auto
qed

theorem if_truthiness_witness:
  "eval_expr raising_host (Suc (Suc 0)) (PList [Symbol ''null?'', PInt 0]) base_environment
     = Some (Inr (PBool False), base_environment) \<and>
   eval_expr raising_host (Suc (Suc (Suc 0)))
       (PList [Symbol ''if'', PList [Symbol ''null?'', PInt 0], Symbol ''unbound'', PInt 2])
       base_environment
     = Some (Inr (PInt 2), base_environment) \<and>
   eval_expr raising_host (Suc (Suc (Suc 0)))
       (PList [Symbol ''if'', PList [Symbol ''null?'', PInt 0], Symbol ''unbound'']) base_environment
     = Some (Inr PNone, base_environment) \<and>
   eval_expr raising_host (Suc (Suc 0)) (PInt 0) base_environment
     = Some (Inr (PInt 0), base_environment) \<and>
   eval_expr raising_host (Suc (Suc (Suc 0)))
       (PList [Symbol ''if'', PInt 0, PInt 1, Symbol ''unbound'']) base_environment
     = Some (Inr (PInt 1), base_environment)"
proof -
  have falsy: "eval_expr raising_host (Suc (Suc 0)) (PList [Symbol ''null?'', PInt 0]) base_environment
     = Some (Inr (PBool False), base_environment)"
    by (simp add: base_environment_def call_builtin_def is_special_def)
  have zero: "eval_expr raising_host (Suc (Suc 0)) (PInt 0) base_environment
     = Some (Inr (PInt 0), base_environment)"
    by simp
  from if_truthiness [OF falsy, where t = "Symbol ''unbound''" and e = "PInt 2" and els = "[]"]
       if_truthiness [OF zero, where t = "PInt 1" and e = "PInt 2" and els = "[Symbol ''unbound'']"]
       falsy zero
  show ?thesis by simp
qed

text \<open>
  C9. An \<^verbatim>\<open>if\<close> with two or more elements after the then clause is not an error, and
  none of those elements is an else clause: when the condition evaluates to the Boolean
  false the form is the null value, and no element after the condition is evaluated.
\<close>

theorem if_extra_elements_ignored:
  assumes "eval_expr h n c env = Some (Inr v, env1)" and "length els \<ge> 2"
  shows "eval_expr h (Suc n) (PList (Symbol ''if'' # c # t # els)) env =
           (if v \<noteq> PBool False then eval_expr h n t env1 else Some (Inr PNone, env1))"
proof -
  from assms(2) obtain e1 e2 more where "els = e1 # e2 # more"
    by (cases els; cases "tl els") auto
  with assms(1) show ?thesis by simp
qed

theorem if_extra_elements_ignored_witness:
  "eval_expr raising_host (Suc (Suc 0)) (PList [Symbol ''null?'', PInt 0]) base_environment
     = Some (Inr (PBool False), base_environment) \<and>
   length [Symbol ''unbound'', PInt 3] \<ge> 2 \<and>
   eval_expr raising_host (Suc (Suc (Suc 0)))
       (PList [Symbol ''if'', PList [Symbol ''null?'', PInt 0], PInt 1, Symbol ''unbound'', PInt 3])
       base_environment
     = Some (Inr PNone, base_environment)"
proof -
  have falsy: "eval_expr raising_host (Suc (Suc 0)) (PList [Symbol ''null?'', PInt 0]) base_environment
     = Some (Inr (PBool False), base_environment)"
    by (simp add: base_environment_def call_builtin_def is_special_def)
  have len: "length [Symbol ''unbound'', PInt 3] \<ge> 2" by simp
  from if_extra_elements_ignored [OF falsy len, where t = "PInt 1"] falsy
  show ?thesis by simp
qed

section \<open>Special forms\<close>

text \<open>
  C4. In every environment, a list headed by one of the five keywords is handled as the
  special form: the five equations hold whatever the environment binds the keyword to, and
  none of them looks the keyword up. After \<^verbatim>\<open>(define quote list)\<close> the form
  \<^verbatim>\<open>(quote x)\<close> still returns the symbol, where calling the function bound to
  \<^verbatim>\<open>quote\<close> fails on the unbound argument \<open>x\<close>.
\<close>

theorem special_forms_not_shadowed:
  "eval_expr h (Suc n) (PList (Symbol ''lambda'' # rest)) env =
     (case rest of
        arg_names # code # _ \<Rightarrow> Some (Inr (Lambda arg_names code), env)
      | _ \<Rightarrow> Some (Inl LambdaShape, env)) \<and>
   eval_expr h (Suc n) (PList (Symbol ''if'' # rest)) env =
     (case rest of
        c # t # more \<Rightarrow>
          (case eval_expr h n c env of
             None \<Rightarrow> None
           | Some (Inl err, env1) \<Rightarrow> Some (Inl err, env1)
           | Some (Inr v, env1) \<Rightarrow>
               if v \<noteq> PBool False then eval_expr h n t env1
               else (case more of
                       [e] \<Rightarrow> if e \<noteq> PNone then eval_expr h n e env1 else Some (Inr PNone, env1)
                     | _ \<Rightarrow> Some (Inr PNone, env1)))
      | _ \<Rightarrow> Some (Inl IfShape, env)) \<and>
   eval_expr h (Suc n) (PList (Symbol ''define'' # rest)) env =
     (case rest of
        [e1, e2] \<Rightarrow>
          (case value_attr e1 of
             Inl err \<Rightarrow> Some (Inl err, env)
           | Inr name \<Rightarrow>
               (case eval_expr h n e2 env of
                  None \<Rightarrow> None
                | Some (Inl err, env1) \<Rightarrow> Some (Inl err, env1)
                | Some (Inr v, env1) \<Rightarrow> Some (Inr v, env1(name \<mapsto> v))))
      | _ \<Rightarrow> Some (Inl DefineShape, env)) \<and>
   eval_expr h (Suc n) (PList (Symbol ''begin'' # rest)) env = eval_begin h n rest PNone env \<and>
   eval_expr h (Suc n) (PList (Symbol ''quote'' # rest)) env =
     (case rest of
        [e] \<Rightarrow> Some (Inr e, env)
      | _ \<Rightarrow> Some (Inl QuoteShape, env)) \<and>
   eval_expr h (Suc (Suc (Suc n)))
     (PList [Symbol ''begin'', PList [Symbol ''define'', Symbol ''quote'', Symbol ''list''],
                               PList [Symbol ''quote'', Symbol ''x'']]) base_environment =
     Some (Inr (Symbol ''x''), base_environment(''quote'' \<mapsto> Callable ListB)) \<and>
   eval_call h (Suc n) (Symbol ''quote'') [Symbol ''x'']
       (base_environment(''quote'' \<mapsto> Callable ListB)) =
     Some (Inl (UnknownSymbol ''x''), base_environment(''quote'' \<mapsto> Callable ListB))"
  by (auto simp: value_attr_def base_environment_def split: list.splits option.splits sum.splits)

theorem special_forms_not_shadowed_witness:
  "eval_expr raising_host (Suc 0) (PList (Symbol ''quote'' # [Symbol ''x'']))
       (base_environment(''quote'' \<mapsto> Callable ListB)) =
     Some (Inr (Symbol ''x''), base_environment(''quote'' \<mapsto> Callable ListB)) \<and>
   eval_expr raising_host (Suc 0) (PList (Symbol ''lambda'' # [Symbol ''x'']))
       (base_environment(''quote'' \<mapsto> Callable ListB)) =
     Some (Inl LambdaShape, base_environment(''quote'' \<mapsto> Callable ListB))"
  using special_forms_not_shadowed [where h = raising_host and n = 0 and rest = "[Symbol ''x'']"
          and env = "base_environment(''quote'' \<mapsto> Callable ListB)"]
  by simp

text \<open>
  C5. \<^verbatim>\<open>(quote e)\<close> is \<open>e\<close> itself, in every environment and with no depth left for
  evaluating anything: \<open>e\<close> is neither evaluated nor looked up. In the empty environment
  \<^verbatim>\<open>(quote (a b c))\<close> is the list of the three Symbol objects. With any number of
  elements other than one after the keyword the form fails.
\<close>

theorem quote_returns_unevaluated:
  "eval_expr h (Suc n) (PList [Symbol ''quote'', e]) env = Some (Inr e, env) \<and>
   (length rest \<noteq> 1 \<longrightarrow>
      eval_expr h (Suc n) (PList (Symbol ''quote'' # rest)) env = Some (Inl QuoteShape, env)) \<and>
   eval_expr h (Suc n) (PList [Symbol ''quote'', PList [Symbol ''a'', Symbol ''b'', Symbol ''c'']])
       Map.empty
     = Some (Inr (PList [Symbol ''a'', Symbol ''b'', Symbol ''c'']), Map.empty)"
  by (cases rest; cases "tl rest") auto

theorem quote_returns_unevaluated_witness:
  "eval_expr raising_host (Suc 0) (PList [Symbol ''quote'', Symbol ''undefined_name'']) Map.empty
     = Some (Inr (Symbol ''undefined_name''), Map.empty) \<and>
   length [PInt 1, PInt 2] \<noteq> 1 \<and>
   eval_expr raising_host (Suc 0) (PList (Symbol ''quote'' # [PInt 1, PInt 2])) Map.empty
     = Some (Inl QuoteShape, Map.empty)"
  using quote_returns_unevaluated [where h = raising_host and n = 0 and e = "Symbol ''undefined_name''"
          and rest = "[PInt 1, PInt 2]" and env = Map.empty]
  by simp

section \<open>Arity\<close>

text \<open>
  C6. Applying a closure with a parameter list to a number of arguments other than the
  number of parameters fails with the message that carries both numbers, expected first,
  and returns no value, at every depth. The text \<^verbatim>\<open>((lambda (a b) a) 1)\<close> parses to
  a call that fails with expected 2, got 1.
\<close>

theorem arity_mismatch_fails:
  "(length args \<noteq> length ps \<longrightarrow>
      apply_fn h n (Lambda (PList ps) code) args env =
        Some (Inl (ArityMismatch (length ps) (length args)))) \<and>
   parse (tokenize ''((lambda (a b) a) 1)'') =
     Inr (PList [PList [Symbol ''lambda'', PList [Symbol ''a'', Symbol ''b''], Symbol ''a''], PInt 1]) \<and>
   eval_expr h (Suc (Suc n))
     (PList [PList [Symbol ''lambda'', PList [Symbol ''a'', Symbol ''b''], Symbol ''a''], PInt 1]) env =
     Some (Inl (ArityMismatch 2 1), env)"
proof (intro conjI)
  show "length args \<noteq> length ps \<longrightarrow>
      apply_fn h n (Lambda (PList ps) code) args env =
        Some (Inl (ArityMismatch (length ps) (length args)))"
    by (simp add: param_list_def)
  show "parse (tokenize ''((lambda (a b) a) 1)'') =
     Inr (PList [PList [Symbol ''lambda'', PList [Symbol ''a'', Symbol ''b''], Symbol ''a''], PInt 1])"
    by code_simp
  show "eval_expr h (Suc (Suc n))
     (PList [PList [Symbol ''lambda'', PList [Symbol ''a'', Symbol ''b''], Symbol ''a''], PInt 1]) env =
     Some (Inl (ArityMismatch 2 1), env)"
    by (simp add: param_list_def)
qed

theorem arity_mismatch_fails_witness:
  "length [PInt 1, PInt 2, PInt 3] \<noteq> length [Symbol ''a'', Symbol ''b''] \<and>
   apply_fn raising_host 0 (Lambda (PList [Symbol ''a'', Symbol ''b'']) (Symbol ''a''))
       [PInt 1, PInt 2, PInt 3] base_environment
     = Some (Inl (ArityMismatch 2 3))"
  using arity_mismatch_fails [where h = raising_host and n = 0 and args = "[PInt 1, PInt 2, PInt 3]"
          and ps = "[Symbol ''a'', Symbol ''b'']" and code = "Symbol ''a''"
          and env = base_environment]
  by simp

section \<open>Definitions\<close>

text \<open>
  C8. \<^verbatim>\<open>(define name e)\<close> evaluates \<open>e\<close> in the current environment, binds the name to
  the value in the environment that evaluation left, and returns the value. When \<open>e\<close>
  evaluates to the same value in the environment so updated and leaves it as it is, the
  same \<^verbatim>\<open>define\<close> evaluated again returns the value and changes nothing.
  \<^verbatim>\<open>(define x 1)\<close> twice in a row leaves \<open>x\<close> bound to 1, with no error.
\<close>

theorem define_idempotent:
  "(eval_expr h n e env = Some (Inr v, env1) \<longrightarrow>
      eval_expr h (Suc n) (PList [Symbol ''define'', Symbol name, e]) env =
        Some (Inr v, env1(name \<mapsto> v))) \<and>
   (eval_expr h n e env = Some (Inr v, env1) \<and>
    eval_expr h n e (env1(name \<mapsto> v)) = Some (Inr v, env1(name \<mapsto> v)) \<longrightarrow>
      eval_expr h (Suc n) (PList [Symbol ''define'', Symbol name, e]) (env1(name \<mapsto> v)) =
        Some (Inr v, env1(name \<mapsto> v))) \<and>
   eval_expr h (Suc (Suc (Suc n)))
     (PList [Symbol ''begin'', PList [Symbol ''define'', Symbol ''x'', PInt 1],
                               PList [Symbol ''define'', Symbol ''x'', PInt 1]]) env =
     Some (Inr (PInt 1), env(''x'' \<mapsto> PInt 1))"
  by (simp add: value_attr_def)

theorem define_idempotent_witness:
  "eval_expr raising_host (Suc 0) (PInt 1) base_environment
     = Some (Inr (PInt 1), base_environment) \<and>
   eval_expr raising_host (Suc (Suc 0)) (PList [Symbol ''define'', Symbol ''x'', PInt 1])
       base_environment
     = Some (Inr (PInt 1), base_environment(''x'' \<mapsto> PInt 1)) \<and>
   eval_expr raising_host (Suc 0) (PInt 1) (base_environment(''x'' \<mapsto> PInt 1))
     = Some (Inr (PInt 1), base_environment(''x'' \<mapsto> PInt 1)) \<and>
   eval_expr raising_host (Suc (Suc 0)) (PList [Symbol ''define'', Symbol ''x'', PInt 1])
       (base_environment(''x'' \<mapsto> PInt 1))
     = Some (Inr (PInt 1), base_environment(''x'' \<mapsto> PInt 1))"
  using define_idempotent [where h = raising_host and n = "Suc 0" and e = "PInt 1"
          and env = base_environment and v = "PInt 1" and ?env1.0 = base_environment
          and name = "''x''"]
  by simp

section \<open>Tokens\<close>










section \<open>Atoms\<close>

text \<open>
  C7. A token that is not a parenthesis is appended as one node, and the integer form is
  tried first: a token the integer parser accepts is an Integer node even where the float
  parser accepts it too, as it does \<^verbatim>\<open>3\<close>; a token only the float parser accepts is a
  Float node, as \<^verbatim>\<open>3.0\<close>; a token that neither accepts and that is not a string
  token is a Symbol node of the token's text.
\<close>

theorem integer_form_before_float:
  "(token \<noteq> ''('' \<and> token \<noteq> '')'' \<longrightarrow>
      do_parse (token # tokens) ret = do_parse tokens (ret @ [atom token])) \<and>
   (py_int token = Some i \<longrightarrow> atom token = PInt i) \<and>
   (\<not> is_integer token \<and> py_float token = Some f \<longrightarrow> atom token = PFloat f) \<and>
   (\<not> is_integer token \<and> \<not> is_float token \<and> \<not> is_string token \<longrightarrow>
      atom token = Symbol token) \<and>
   is_integer ''3'' \<and> is_float ''3'' \<and> atom ''3'' = PInt 3 \<and>
   \<not> is_integer ''3.0'' \<and> is_float ''3.0'' \<and> atom ''3.0'' = PFloat (FloatLit ''3.0'')"
proof -
  have "is_integer ''3''" "is_float ''3''" "atom ''3'' = PInt 3"
       "\<not> is_integer ''3.0''" "is_float ''3.0''" "atom ''3.0'' = PFloat (FloatLit ''3.0'')"
    by code_simp+
  then show ?thesis
    by (auto simp: atom_def is_integer_def is_float_def)
qed

theorem integer_form_before_float_witness:
  "''3'' \<noteq> ''('' \<and> ''3'' \<noteq> '')'' \<and> py_int ''3'' = Some 3 \<and>
   do_parse [''3'', '')''] [] = Inr ([PInt 3], []) \<and>
   \<not> is_integer ''x1'' \<and> \<not> is_float ''x1'' \<and> \<not> is_string ''x1'' \<and>
   atom ''x1'' = Symbol ''x1''"
proof -
  have a: "py_int ''3'' = Some 3" "\<not> is_integer ''x1''" "\<not> is_float ''x1''" "\<not> is_string ''x1''"
    by code_simp+
  from integer_form_before_float [where token = "''3''" and tokens = "['')'']" and ret = "[]" and i = 3]
       integer_form_before_float [where token = "''x1''"]
       a
  show ?thesis by simp
qed

text \<open>
  C10. The classification is the host's: the text \<^verbatim>\<open>(1_0 inf nan 1e3)\<close> parses to the
  Integer node 10 and three Float nodes, and none of the four tokens is a Symbol node.
\<close>

theorem host_numeric_forms:
  "parse (tokenize ''(1_0 inf nan 1e3)'') =
     Inr (PList [PInt 10, PFloat (FloatLit ''inf''), PFloat (FloatLit ''nan''),
                 PFloat (FloatLit ''1e3'')]) \<and>
   py_int ''1_0'' = Some 10 \<and>
   is_float ''inf'' \<and> is_float ''nan'' \<and> is_float ''1e3'' \<and>
   \<not> is_integer ''inf'' \<and> \<not> is_integer ''nan'' \<and> \<not> is_integer ''1e3''"
  by code_simp

theorem host_numeric_forms_witness:
  "atom ''1_0'' = PInt 10 \<and> atom ''1e3'' = PFloat (FloatLit ''1e3'')"
proof -
  have "atom ''1_0'' = (case py_int ''1_0'' of Some i \<Rightarrow> PInt i | None \<Rightarrow> PNone)"
       "atom ''1e3'' = PFloat (FloatLit ''1e3'')"
    by code_simp+
  with host_numeric_forms show ?thesis by simp
qed

section \<open>Depth of evaluation\<close>

lemma eval_args_deeper:
  assumes step: "\<forall>e env r. eval_expr h n e env = Some r \<longrightarrow> eval_expr h (Suc n) e env = Some r"
  shows "eval_args h n xs env = Some r \<Longrightarrow> eval_args h (Suc n) xs env = Some r"
proof (induction xs arbitrary: env r)
  case Nil
  then show ?case by simp
next
  case (Cons x xs)
  from Cons.prems obtain r1 where r1: "eval_expr h n x env = Some r1"
    by (auto split: option.splits)
  from step r1 have d1: "eval_expr h (Suc n) x env = Some r1" by blast
  show ?case
  proof (cases r1)
    case (Pair a env1)
    show ?thesis
    proof (cases a)
      case (Inl err)
      with Cons.prems r1 Pair d1 show ?thesis by (auto simp del: eval_expr.simps)
    next
      case (Inr v)
      with Cons.prems r1 Pair obtain r2 where r2: "eval_args h n xs env1 = Some r2"
        by (auto simp del: eval_expr.simps split: option.splits)
      from Cons.IH [OF r2] Cons.prems r1 Pair Inr d1 r2 show ?thesis
        by (simp del: eval_expr.simps)
    qed
  qed
qed

lemma eval_begin_deeper:
  assumes step: "\<forall>e env r. eval_expr h n e env = Some r \<longrightarrow> eval_expr h (Suc n) e env = Some r"
  shows "eval_begin h n xs res env = Some r \<Longrightarrow> eval_begin h (Suc n) xs res env = Some r"
proof (induction xs arbitrary: env res r)
  case Nil
  then show ?case by simp
next
  case (Cons x xs)
  from Cons.prems obtain r1 where r1: "eval_expr h n x env = Some r1"
    by (auto split: option.splits)
  from step r1 have d1: "eval_expr h (Suc n) x env = Some r1" by blast
  show ?case
  proof (cases r1)
    case (Pair a env1)
    show ?thesis
    proof (cases a)
      case (Inl err)
      with Cons.prems r1 Pair d1 show ?thesis by (auto simp del: eval_expr.simps)
    next
      case (Inr v)
      with Cons.prems r1 Pair have "eval_begin h n xs v env1 = Some r"
        by (simp del: eval_expr.simps)
      from Cons.IH [OF this] r1 Pair Inr d1 show ?thesis
        by (simp del: eval_expr.simps)
    qed
  qed
qed

lemma apply_fn_deeper:
  assumes step: "\<forall>e env r. eval_expr h n e env = Some r \<longrightarrow> eval_expr h (Suc n) e env = Some r"
  shows "apply_fn h n fn args env = Some r \<Longrightarrow> apply_fn h (Suc n) fn args env = Some r"
proof -
  have IH: "\<And>e env r. eval_expr h n e env = Some r \<Longrightarrow> eval_expr h (Suc n) e env = Some r"
    using step by blast
  assume "apply_fn h n fn args env = Some r"
  then show ?thesis
    by (cases fn) (auto simp del: eval_expr.simps dest!: IH split: option.splits sum.splits if_splits)
qed

lemma eval_call_deeper:
  assumes step: "\<forall>e env r. eval_expr h n e env = Some r \<longrightarrow> eval_expr h (Suc n) e env = Some r"
  shows "eval_call h n e0 rest env = Some r \<Longrightarrow> eval_call h (Suc n) e0 rest env = Some r"
proof -
  assume a: "eval_call h n e0 rest env = Some r"
  then obtain r1 where r1: "eval_expr h n e0 env = Some r1"
    by (auto split: option.splits)
  from step r1 have d1: "eval_expr h (Suc n) e0 env = Some r1" by blast
  obtain a1 env1 where p: "r1 = (a1, env1)" by (cases r1)
  show ?thesis
  proof (cases a1)
    case (Inl err)
    with a r1 p d1 show ?thesis by (auto simp del: eval_expr.simps apply_fn.simps)
  next
    case (Inr fn)
    with a r1 p obtain r2 where r2: "eval_args h n rest env1 = Some r2"
      by (auto simp del: eval_expr.simps apply_fn.simps split: option.splits)
    note d2 = eval_args_deeper [OF step r2]
    obtain a2 env2 where p2: "r2 = (a2, env2)" by (cases r2)
    show ?thesis
    proof (cases a2)
      case (Inl err)
      with a r1 p Inr r2 p2 d1 d2 show ?thesis by (auto simp del: eval_expr.simps apply_fn.simps)
    next
      case args: (Inr args)
      with a r1 p Inr r2 p2 obtain r3 where r3: "apply_fn h n fn args env2 = Some r3"
        by (auto simp del: eval_expr.simps apply_fn.simps split: option.splits)
      note d3 = apply_fn_deeper [OF step r3]
      from a r1 p Inr r2 p2 args r3 d1 d2 d3 show ?thesis
        by (auto simp del: eval_expr.simps apply_fn.simps)
    qed
  qed
qed


lemma eval_expr_step_deeper:
  assumes step: "\<forall>e env r. eval_expr h n e env = Some r \<longrightarrow> eval_expr h (Suc n) e env = Some r"
  shows "eval_expr h (Suc n) e env = Some r \<Longrightarrow> eval_expr h (Suc (Suc n)) e env = Some r"
proof -
  have IH: "\<And>e env r. eval_expr h n e env = Some r \<Longrightarrow> eval_expr h (Suc n) e env = Some r"
    using step by blast
  note calls = eval_call_deeper [OF step] eval_begin_deeper [OF step]
  assume a: "eval_expr h (Suc n) e env = Some r"
  show ?thesis
  proof (cases e)
    case (PList xs)
    show ?thesis
    proof (cases xs)
      case Nil
      with a PList show ?thesis by simp
    next
      case (Cons e0 rest)
      show ?thesis
      proof (cases "is_special e0")
        case False
        from a PList Cons have "eval_call h n e0 rest env = Some r"
          by (simp only: eval_expr_call [OF False])
        from calls(1) [OF this] PList Cons show ?thesis
          by (simp only: eval_expr_call [OF False])
      next
        case True
        then obtain v where v: "e0 = Symbol v" "v \<in> set special_forms"
          by (auto simp: is_special_def split: obj.splits)
        consider "v = ''lambda''" | "v = ''if''" | "v = ''define''" | "v = ''begin''" | "v = ''quote''"
          using v(2) by (auto simp: special_forms_def)
        then show ?thesis
        proof cases
          case 1
          with a PList Cons v show ?thesis by (simp split: list.splits)
        next
          case 2
          with a PList Cons v show ?thesis
            apply (simp del: eval_expr.simps add: eval_expr.simps(2) [of h _ "PList ys" for ys] split: list.splits)
            apply (auto simp del: eval_expr.simps dest!: IH split: option.splits sum.splits if_splits)
            done
        next
          case 3
          with a PList Cons v show ?thesis
            apply (simp del: eval_expr.simps add: eval_expr.simps(2) [of h _ "PList ys" for ys] split: list.splits)
            apply (auto simp del: eval_expr.simps dest!: IH split: option.splits sum.splits if_splits)
            done
        next
          case 4
          with a PList Cons v calls(2) show ?thesis
            by (simp del: eval_begin.simps)
        next
          case 5
          with a PList Cons v show ?thesis by (simp split: list.splits)
        qed
      qed
    qed
  qed (use a in simp_all)
qed

text \<open>More depth never changes a result.\<close>

theorem eval_expr_deeper:
  "eval_expr h n e env = Some r \<Longrightarrow> eval_expr h (Suc n) e env = Some r"
proof (induction n arbitrary: e env r)
  case 0
  then show ?case by simp
next
  case (Suc n)
  from Suc.IH have "\<forall>e env r. eval_expr h n e env = Some r \<longrightarrow> eval_expr h (Suc n) e env = Some r"
    by blast
  from eval_expr_step_deeper [OF this Suc.prems] show ?case .
qed

lemma eval_expr_depth_mono:
  "eval_expr h n e env = Some r \<Longrightarrow> n \<le> m \<Longrightarrow> eval_expr h m e env = Some r"
  by (induction m) (auto simp del: eval_expr.simps simp add: le_Suc_eq dest: eval_expr_deeper)

end
